theory Spec2Isabelle
  imports Complex_Main "HOL-Library.Word"
begin

section \<open>Data model of the frame processor\<close>

text \<open>
  The embedding follows \<^verbatim>\<open>frame_processor.hpp\<close> and \<^verbatim>\<open>frame_processor.cpp\<close>.
  A \<^verbatim>\<open>uint8_t\<close> is an 8-bit word, a \<^verbatim>\<open>size_t\<close> a 64-bit word (LP64). The C++
  \<^verbatim>\<open>int\<close> fields hold geometry and configuration values that the processor only
  copies and compares, so they are unbounded integers here. A \<^verbatim>\<open>float\<close> of the
  configuration is a real number: the processor only compares it with 0 and 1 and hands
  it to the matrix library (infinities and NaN are not represented).
\<close>

type_synonym byte = "8 word"
type_synonym size_t = "64 word"

text \<open>A turbojpeg handle is an address; 0 is the null handle.\<close>

type_synonym tjhandle = nat

datatype depth = CV_8U | CV_8S | CV_16U | CV_16S | CV_32S | CV_32F | CV_64F

fun elemSize1 :: "depth \<Rightarrow> nat" where
  "elemSize1 CV_8U = 1"
| "elemSize1 CV_8S = 1"
| "elemSize1 CV_16U = 2"
| "elemSize1 CV_16S = 2"
| "elemSize1 CV_32S = 4"
| "elemSize1 CV_32F = 4"
| "elemSize1 CV_64F = 8"

text \<open>
  \<^verbatim>\<open>cv::Mat\<close>: geometry, channel count, sample depth and the continuous payload of
  \<^verbatim>\<open>total() * elemSize()\<close> bytes.
\<close>

record Mat =
  rows :: int
  cols :: int
  mat_channels :: int
  mat_depth :: depth
  mat_data :: "byte list"

definition total :: "Mat \<Rightarrow> nat" where
  "total m = nat (rows m) * nat (cols m)"

definition elemSize :: "Mat \<Rightarrow> nat" where
  "elemSize m = nat (mat_channels m) * elemSize1 (mat_depth m)"

record PreprocessConfig =
  target_width :: int
  target_height :: int
  normalize_on :: bool
  rgb_conversion :: bool
  mean :: "real \<times> real \<times> real"
  std :: "real \<times> real \<times> real"
  interpolation :: int

record JPEGConfig =
  quality :: int
  subsample :: int
  optimize :: bool
  progressive :: bool

text \<open>
  \<^verbatim>\<open>ProcessedFrame\<close> has no constructor: a local \<^verbatim>\<open>ProcessedFrame result;\<close> starts
  with an empty \<^verbatim>\<open>data\<close> and \<^verbatim>\<open>error_msg\<close> and with indeterminate \<^verbatim>\<open>width\<close>,
  \<^verbatim>\<open>height\<close> and \<^verbatim>\<open>channels\<close>. An integer field that was never assigned is \<open>None\<close>.
  The \<^verbatim>\<open>success\<close> flag is assigned before any read on every path that returns such a
  local, so it stays a plain boolean.
\<close>

record ProcessedFrame =
  data :: "byte list"
  width :: "int option"
  height :: "int option"
  channels :: "int option"
  success :: bool
  error_msg :: string

definition fresh_result :: ProcessedFrame where
  "fresh_result = \<lparr>data = [], width = None, height = None, channels = None,
                    success = False, error_msg = []\<rparr>"

text \<open>
  An element of \<^verbatim>\<open>std::vector<ProcessedFrame> results(n)\<close> is value-initialised: the
  scalar fields are zero.
\<close>

definition value_init_result :: ProcessedFrame where
  "value_init_result = \<lparr>data = [], width = Some 0, height = Some 0, channels = Some 0,
                         success = False, error_msg = []\<rparr>"

subsection \<open>The library primitives\<close>

text \<open>
  OpenCV and turbojpeg are not part of the repository. Their entry points are parameters
  of the model: each returns either the message of the exception it throws (for
  turbojpeg: the text of \<^verbatim>\<open>tjGetErrorStr()\<close> after a non-zero return) or its output.
\<close>

datatype ColorConversion = COLOR_BGR2RGB | COLOR_RGB2BGR | COLOR_BGRA2BGR

datatype PixelFormat = TJPF_BGR | TJPF_GRAY

definition TJFLAG_FASTDCT :: int where
  "TJFLAG_FASTDCT = 2048"

record prims =
  cv_resize :: "Mat \<Rightarrow> int \<Rightarrow> int \<Rightarrow> int \<Rightarrow> string + Mat"
  cv_cvtColor :: "Mat \<Rightarrow> ColorConversion \<Rightarrow> string + Mat"
  cv_convertTo :: "Mat \<Rightarrow> depth \<times> int \<Rightarrow> real \<Rightarrow> string + Mat"
  cv_split :: "Mat \<Rightarrow> string + Mat list"
  cv_sub_div :: "Mat \<Rightarrow> real \<Rightarrow> real \<Rightarrow> string + Mat"
  cv_merge :: "Mat list \<Rightarrow> string + Mat"
  tjCompress2 :: "tjhandle \<Rightarrow> Mat \<Rightarrow> PixelFormat \<Rightarrow> int \<Rightarrow> int \<Rightarrow> int \<Rightarrow> string + byte list"

definition CV_32FC3 :: "depth \<times> int" where
  "CV_32FC3 = (CV_32F, 3)"

subsection \<open>The processor's state\<close>

text \<open>
  The four data members of \<^verbatim>\<open>FrameProcessor\<close>, and three fields for the world around
  it: the next address \<^verbatim>\<open>tjInitCompress\<close> hands out, the thread that is executing
  (\<^verbatim>\<open>omp_get_thread_num()\<close>; 0 outside a parallel region), and the log of the
  \<^verbatim>\<open>tjCompress2\<close> invocations as pairs of the invoking thread and the handle it passed.
\<close>

record FrameProcessor =
  jpeg_compressor :: tjhandle
  num_threads :: nat
  frames_processed :: size_t
  bytes_encoded :: size_t
  tj_next :: nat
  cur_thread :: nat
  tj_log :: "(nat \<times> tjhandle) list"

definition tjInitCompress :: "FrameProcessor \<Rightarrow> tjhandle \<times> FrameProcessor" where
  "tjInitCompress st = (tj_next st, st\<lparr>tj_next := Suc (tj_next st)\<rparr>)"

text \<open>
  The constructor; \<open>hw\<close> is \<^verbatim>\<open>std::thread::hardware_concurrency()\<close> and \<open>next_addr\<close>
  the address the first \<^verbatim>\<open>tjInitCompress\<close> returns.
\<close>

definition FrameProcessor_ctor :: "nat \<Rightarrow> nat \<Rightarrow> int \<Rightarrow> string + FrameProcessor" where
  "FrameProcessor_ctor hw next_addr n =
     (let st0 = \<lparr>jpeg_compressor = 0, num_threads = (if n > 0 then nat n else hw),
                 frames_processed = 0, bytes_encoded = 0, tj_next = next_addr,
                 cur_thread = 0, tj_log = []\<rparr>;
          (h, st1) = tjInitCompress st0
      in if h = 0 then Inl ''Failed to initialize turbojpeg compressor''
         else Inr (st1\<lparr>jpeg_compressor := h\<rparr>))"

definition fail :: "ProcessedFrame \<Rightarrow> string \<Rightarrow> ProcessedFrame" where
  "fail result msg = result\<lparr>success := False, error_msg := msg\<rparr>"

text \<open>The copy of a matrix into \<^verbatim>\<open>result.data\<close>: \<^verbatim>\<open>total() * elemSize()\<close> bytes.\<close>

definition contiguous_bytes :: "Mat \<Rightarrow> byte list" where
  "contiguous_bytes m = take (total m * elemSize m) (mat_data m)"

section \<open>Encoding\<close>

definition encode_jpeg_internal ::
  "prims \<Rightarrow> FrameProcessor \<Rightarrow> Mat \<Rightarrow> JPEGConfig \<Rightarrow> ProcessedFrame \<times> FrameProcessor" where
  "encode_jpeg_internal P st frame config =
     (let result = fresh_result\<lparr>width := Some (cols frame), height := Some (rows frame),
                                channels := Some (mat_channels frame), success := True\<rparr>
      in case (if mat_channels frame = 4 then cv_cvtColor P frame COLOR_BGRA2BGR
               else Inr frame) of
           Inl e \<Rightarrow> (fail result e, st)
         | Inr bgr_frame \<Rightarrow>
             (case (if mat_channels bgr_frame = 1 then Inr TJPF_GRAY
                    else if mat_channels bgr_frame = 3 then Inr TJPF_BGR
                    else Inl ''Unsupported channel count'') of
                Inl e \<Rightarrow> (fail result e, st)
              | Inr pixel_format \<Rightarrow>
                  (let st1 = st\<lparr>tj_log := tj_log st @ [(cur_thread st, jpeg_compressor st)]\<rparr>
                   in case tjCompress2 P (jpeg_compressor st) bgr_frame pixel_format
                             (subsample config) (quality config)
                             (if optimize config then TJFLAG_FASTDCT else 0) of
                        Inl err \<Rightarrow> (fail result (''turbojpeg compression failed: '' @ err), st1)
                      | Inr jpeg \<Rightarrow>
                          (result\<lparr>data := jpeg\<rparr>,
                           st1\<lparr>frames_processed := frames_processed st1 + 1,
                               bytes_encoded := bytes_encoded st1 + of_nat (length jpeg)\<rparr>))))"

definition encode_jpeg ::
  "prims \<Rightarrow> FrameProcessor \<Rightarrow> Mat \<Rightarrow> JPEGConfig \<Rightarrow> ProcessedFrame \<times> FrameProcessor" where
  "encode_jpeg P st frame config = encode_jpeg_internal P st frame config"

definition reset_stats :: "FrameProcessor \<Rightarrow> FrameProcessor" where
  "reset_stats st = st\<lparr>frames_processed := 0, bytes_encoded := 0\<rparr>"


section \<open>Preprocessing\<close>

text \<open>
  A \<^verbatim>\<open>float[3]\<close> of the configuration is a triple; \<open>at3\<close> reads it by index as the
  loops do (the loops only use the indices 0, 1 and 2).
\<close>

fun at3 :: "real \<times> real \<times> real \<Rightarrow> nat \<Rightarrow> real" where
  "at3 (a, b, c) i = (if i = 0 then a else if i = 1 then b else c)"

text \<open>
  What a block of code can do: return, throw a \<^verbatim>\<open>std::exception\<close> with a message,
  or index a \<^verbatim>\<open>std::vector\<close> out of range with \<^verbatim>\<open>operator[]\<close>, which is undefined
  behaviour and not an exception any handler catches.
\<close>

datatype 'a outcome = Returned 'a | Thrown string | Undefined_Behaviour

fun lift :: "string + 'a \<Rightarrow> 'a outcome" where
  "lift (Inl e) = Thrown e"
| "lift (Inr x) = Returned x"

fun and_then :: "'a outcome \<Rightarrow> ('a \<Rightarrow> 'b outcome) \<Rightarrow> 'b outcome" where
  "and_then (Returned x) f = f x"
| "and_then (Thrown e) f = Thrown e"
| "and_then Undefined_Behaviour f = Undefined_Behaviour"

text \<open>
  The loop \<^verbatim>\<open>channels[i] = (channels[i] - mean[i]) / std[i]\<close> over the indices it is
  given: 0, 1, 2 in \<^verbatim>\<open>preprocess_internal\<close>, whatever \<^verbatim>\<open>cv::split\<close> returned.
\<close>

fun channel_loop ::
  "prims \<Rightarrow> real \<times> real \<times> real \<Rightarrow> real \<times> real \<times> real \<Rightarrow> nat list \<Rightarrow> Mat list
     \<Rightarrow> Mat list outcome" where
  "channel_loop P mu sigma [] chans = Returned chans"
| "channel_loop P mu sigma (i # rest) chans =
     (if length chans \<le> i then Undefined_Behaviour
      else case cv_sub_div P (chans ! i) (at3 mu i) (at3 sigma i) of
             Inl e \<Rightarrow> Thrown e
           | Inr c \<Rightarrow> channel_loop P mu sigma rest (chans[i := c]))"

definition preprocess_internal :: "prims \<Rightarrow> Mat \<Rightarrow> PreprocessConfig \<Rightarrow> Mat outcome" where
  "preprocess_internal P frame config =
     and_then
       (if target_width config > 0 \<and> target_height config > 0
        then lift (cv_resize P frame (target_width config) (target_height config)
                     (interpolation config))
        else Returned frame)
       (\<lambda>resized.
     and_then
       (if rgb_conversion config \<and> mat_channels frame = 3
        then lift (cv_cvtColor P resized COLOR_BGR2RGB)
        else Returned resized)
       (\<lambda>converted.
     if normalize_on config then
       and_then (lift (cv_convertTo P converted CV_32FC3 (1 / 255)))
         (\<lambda>scaled.
            if at3 (mean config) 0 \<noteq> 0 \<or> at3 (mean config) 1 \<noteq> 0 \<or> at3 (mean config) 2 \<noteq> 0
               \<or> at3 (std config) 0 \<noteq> 1 \<or> at3 (std config) 1 \<noteq> 1 \<or> at3 (std config) 2 \<noteq> 1
            then and_then (lift (cv_split P scaled))
                   (\<lambda>chans. and_then (channel_loop P (mean config) (std config) [0, 1, 2] chans)
                      (\<lambda>chans'. lift (cv_merge P chans')))
            else Returned scaled)
     else Returned converted))"

text \<open>
  \<^verbatim>\<open>normalize_frame\<close> runs the same arithmetic, always, and bounds the loop by
  \<^verbatim>\<open>std::min(3, (int)channels.size())\<close>. It has no handler of its own: an exception
  reaches the caller.
\<close>

definition normalize_frame ::
  "prims \<Rightarrow> Mat \<Rightarrow> real \<times> real \<times> real \<Rightarrow> real \<times> real \<times> real \<Rightarrow> Mat outcome" where
  "normalize_frame P frame mu sigma =
     and_then (lift (cv_convertTo P frame CV_32FC3 (1 / 255)))
       (\<lambda>normalized. and_then (lift (cv_split P normalized))
          (\<lambda>chans. and_then (channel_loop P mu sigma [0..<min 3 (length chans)] chans)
             (\<lambda>chans'. lift (cv_merge P chans'))))"

definition bgr_to_rgb :: "prims \<Rightarrow> Mat \<Rightarrow> Mat outcome" where
  "bgr_to_rgb P frame = lift (cv_cvtColor P frame COLOR_BGR2RGB)"

definition rgb_to_bgr :: "prims \<Rightarrow> Mat \<Rightarrow> Mat outcome" where
  "rgb_to_bgr P frame = lift (cv_cvtColor P frame COLOR_RGB2BGR)"

text \<open>
  The single-frame operations that call \<^verbatim>\<open>preprocess_internal\<close> return \<open>None\<close> when it
  runs into undefined behaviour: the model says nothing about what the program does then.
\<close>

definition preprocess_for_inference ::
  "prims \<Rightarrow> FrameProcessor \<Rightarrow> Mat \<Rightarrow> PreprocessConfig
     \<Rightarrow> (ProcessedFrame \<times> FrameProcessor) option" where
  "preprocess_for_inference P st frame config =
     (let result = fresh_result\<lparr>success := True\<rparr>
      in case preprocess_internal P frame config of
           Undefined_Behaviour \<Rightarrow> None
         | Thrown e \<Rightarrow> Some (fail result e, st)
         | Returned processed \<Rightarrow>
             Some (result\<lparr>width := Some (cols processed), height := Some (rows processed),
                          channels := Some (mat_channels processed),
                          data := contiguous_bytes processed\<rparr>,
                   st\<lparr>frames_processed := frames_processed st + 1\<rparr>))"

definition resize_frame ::
  "prims \<Rightarrow> FrameProcessor \<Rightarrow> Mat \<Rightarrow> int \<Rightarrow> int \<Rightarrow> int \<Rightarrow> ProcessedFrame \<times> FrameProcessor" where
  "resize_frame P st frame w h interp =
     (let result = fresh_result\<lparr>width := Some w, height := Some h,
                                channels := Some (mat_channels frame), success := True\<rparr>
      in case cv_resize P frame w h interp of
           Inl e \<Rightarrow> (fail result e, st)
         | Inr resized \<Rightarrow>
             (result\<lparr>data := contiguous_bytes resized\<rparr>,
              st\<lparr>frames_processed := frames_processed st + 1\<rparr>))"

definition preprocess_and_encode ::
  "prims \<Rightarrow> FrameProcessor \<Rightarrow> Mat \<Rightarrow> PreprocessConfig \<Rightarrow> JPEGConfig
     \<Rightarrow> (ProcessedFrame \<times> FrameProcessor) option" where
  "preprocess_and_encode P st frame preproc_config jpeg_config =
     (case preprocess_internal P frame preproc_config of
        Undefined_Behaviour \<Rightarrow> None
      | Thrown e \<Rightarrow> Some (fail fresh_result e, st)
      | Returned processed \<Rightarrow> Some (encode_jpeg_internal P st processed jpeg_config))"

section \<open>Batches\<close>

text \<open>
  \<^verbatim>\<open>batch_preprocess\<close> runs its iterations under \<^verbatim>\<open>#pragma omp parallel for\<close> and
  appends each result with \<^verbatim>\<open>push_back\<close> inside \<^verbatim>\<open>#pragma omp critical\<close>. The
  schedule \<open>sched\<close> lists the iteration indices in the order in which they enter the
  critical section: a permutation of \<open>[0..<length frames]\<close>, the identity when the
  pragmas are compiled out.
\<close>

fun batch_preprocess_loop ::
  "prims \<Rightarrow> Mat list \<Rightarrow> PreprocessConfig \<Rightarrow> nat list \<Rightarrow> ProcessedFrame list \<Rightarrow> FrameProcessor
     \<Rightarrow> (ProcessedFrame list \<times> FrameProcessor) option" where
  "batch_preprocess_loop P frames config [] results st = Some (results, st)"
| "batch_preprocess_loop P frames config (i # rest) results st =
     (case preprocess_for_inference P st (frames ! i) config of
        None \<Rightarrow> None
      | Some (result, st') \<Rightarrow> batch_preprocess_loop P frames config rest (results @ [result]) st')"

definition batch_preprocess ::
  "prims \<Rightarrow> FrameProcessor \<Rightarrow> Mat list \<Rightarrow> PreprocessConfig \<Rightarrow> nat list
     \<Rightarrow> (ProcessedFrame list \<times> FrameProcessor) option" where
  "batch_preprocess P st frames config sched = batch_preprocess_loop P frames config sched [] st"

definition valid_schedule :: "nat \<Rightarrow> nat list \<Rightarrow> bool" where
  "valid_schedule n sched = (distinct sched \<and> set sched = {..<n})"

text \<open>
  \<^verbatim>\<open>batch_encode_jpeg\<close> opens a parallel region for which it requests
  \<^verbatim>\<open>num_threads_\<close> threads. The threads that execute the region are its team: one
  thread when the pragmas are compiled out, and with OpenMP at least one and at most
  \<^verbatim>\<open>num_threads_\<close>. Each thread of the team creates a handle with
  \<^verbatim>\<open>tjInitCompress\<close>, takes its share of the iterations of the \<^verbatim>\<open>omp for\<close> loop
  and destroys its handle. The size of the team is the argument \<open>team\<close>; the schedule
  lists the iterations in the order in which they run, each with the thread that runs it.
\<close>

definition valid_team :: "FrameProcessor \<Rightarrow> nat \<Rightarrow> bool" where
  "valid_team st team = (team = 1 \<or> (1 \<le> team \<and> team \<le> num_threads st))"

fun init_team :: "nat \<Rightarrow> FrameProcessor \<Rightarrow> tjhandle list \<times> FrameProcessor" where
  "init_team 0 st = ([], st)"
| "init_team (Suc n) st =
     (let (h, st1) = tjInitCompress st; (hs, st2) = init_team n st1 in (h # hs, st2))"

fun batch_encode_loop ::
  "prims \<Rightarrow> Mat list \<Rightarrow> JPEGConfig \<Rightarrow> (nat \<times> nat) list \<Rightarrow> ProcessedFrame list \<Rightarrow> FrameProcessor
     \<Rightarrow> ProcessedFrame list \<times> FrameProcessor" where
  "batch_encode_loop P frames config [] results st = (results, st)"
| "batch_encode_loop P frames config ((t, i) # rest) results st =
     (let (result, st') = encode_jpeg_internal P (st\<lparr>cur_thread := t\<rparr>) (frames ! i) config
      in batch_encode_loop P frames config rest (results[i := result]) st')"

text \<open>
  The function also returns the handles the threads created, which the C++ keeps in the
  thread-local variable \<^verbatim>\<open>compressor\<close>.
\<close>

definition batch_encode_jpeg ::
  "prims \<Rightarrow> FrameProcessor \<Rightarrow> Mat list \<Rightarrow> JPEGConfig \<Rightarrow> nat \<Rightarrow> (nat \<times> nat) list
     \<Rightarrow> ProcessedFrame list \<times> FrameProcessor \<times> tjhandle list" where
  "batch_encode_jpeg P st frames config team sched =
     (let results = replicate (length frames) value_init_result;
          (compressors, st1) = init_team team st;
          (results', st2) = batch_encode_loop P frames config sched results st1
      in (results', st2\<lparr>cur_thread := cur_thread st\<rparr>, compressors))"

definition valid_team_schedule :: "nat \<Rightarrow> nat \<Rightarrow> (nat \<times> nat) list \<Rightarrow> bool" where
  "valid_team_schedule team n sched =
     (valid_schedule n (map snd sched) \<and> list_all (\<lambda>(t, i). t < team) sched)"

text \<open>A caller that encodes the frames of a list one after the other.\<close>

fun encode_each ::
  "prims \<Rightarrow> FrameProcessor \<Rightarrow> Mat list \<Rightarrow> JPEGConfig \<Rightarrow> ProcessedFrame list \<times> FrameProcessor" where
  "encode_each P st [] config = ([], st)"
| "encode_each P st (f # fs) config =
     (let (r, st1) = encode_jpeg P st f config; (rs, st2) = encode_each P st1 fs config
      in (r # rs, st2))"

section \<open>The thread pool\<close>

text \<open>
  A queued closure is the batch it captured. The pool's members are the workers (for each
  thread whether it is still joinable), the FIFO queue and the stop flag; \<open>finished\<close>
  records the closures that a worker has taken from the queue and run, in that order.
\<close>

datatype Task = PreprocessBatch "Mat list" PreprocessConfig | EncodeBatch "Mat list" JPEGConfig

record FrameProcessorPool =
  workers :: "bool list"
  tasks :: "Task list"
  stop :: bool
  finished :: "Task list"

definition FrameProcessorPool_ctor :: "nat \<Rightarrow> FrameProcessorPool" where
  "FrameProcessorPool_ctor n =
     \<lparr>workers = replicate n True, tasks = [], stop = False, finished = []\<rparr>"

text \<open>
  One worker, run on its own from a state of the pool until it returns. It waits while
  the pool is neither stopped nor has a task; with nobody else to change the pool it then
  waits forever, which is \<open>None\<close>.
\<close>

function worker_thread :: "FrameProcessorPool \<Rightarrow> FrameProcessorPool option" where
  "worker_thread p =
     (if \<not> (stop p \<or> tasks p \<noteq> []) then None
      else if stop p \<and> tasks p = [] then Some p
      else worker_thread (p\<lparr>tasks := tl (tasks p), finished := finished p @ [hd (tasks p)]\<rparr>))"
  by pat_completeness auto
termination
  by (relation "measure (\<lambda>p. length (tasks p))") auto

declare worker_thread.simps [simp del]

definition submit_batch ::
  "FrameProcessorPool \<Rightarrow> Mat list \<Rightarrow> PreprocessConfig \<Rightarrow> FrameProcessorPool" where
  "submit_batch p frames config = p\<lparr>tasks := tasks p @ [PreprocessBatch frames config]\<rparr>"

definition submit_encode_batch ::
  "FrameProcessorPool \<Rightarrow> Mat list \<Rightarrow> JPEGConfig \<Rightarrow> FrameProcessorPool" where
  "submit_encode_batch p frames config = p\<lparr>tasks := tasks p @ [EncodeBatch frames config]\<rparr>"

text \<open>
  \<^verbatim>\<open>shutdown\<close> sets the flag and joins each joinable worker in turn: the worker runs
  until it returns.
\<close>

fun join_workers :: "nat list \<Rightarrow> FrameProcessorPool \<Rightarrow> FrameProcessorPool option" where
  "join_workers [] p = Some p"
| "join_workers (i # rest) p =
     (if workers p ! i
      then (case worker_thread p of
              None \<Rightarrow> None
            | Some p' \<Rightarrow> join_workers rest (p'\<lparr>workers := (workers p')[i := False]\<rparr>))
      else join_workers rest p)"

definition shutdown :: "FrameProcessorPool \<Rightarrow> FrameProcessorPool option" where
  "shutdown p = join_workers [0..<length (workers p)] (p\<lparr>stop := True\<rparr>)"

section \<open>A sample instance of the library primitives\<close>

text \<open>
  The theorems below hold for every instance of the primitives. To run the model on
  concrete frames, this instance is enough: a resize that rejects an empty source or
  target and otherwise allocates a zeroed matrix of the requested size, a color conversion
  that checks the channel count, and a codec that rejects an image without pixels and
  otherwise emits a codestream whose length grows with the image width.
\<close>

definition sample_resize :: "Mat \<Rightarrow> int \<Rightarrow> int \<Rightarrow> int \<Rightarrow> string + Mat" where
  "sample_resize m w h interp =
     (if rows m \<le> 0 \<or> cols m \<le> 0 then Inl ''resize: empty source''
      else if w \<le> 0 \<or> h \<le> 0 then Inl ''resize: empty target size''
      else Inr (m\<lparr>rows := h, cols := w, mat_data := replicate (nat h * nat w * elemSize m) 0\<rparr>))"

definition sample_cvtColor :: "Mat \<Rightarrow> ColorConversion \<Rightarrow> string + Mat" where
  "sample_cvtColor m code =
     (if code = COLOR_BGRA2BGR
      then (if mat_channels m = 4
            then Inr (m\<lparr>mat_channels := 3,
                        mat_data := replicate (total m * 3 * elemSize1 (mat_depth m)) 0\<rparr>)
            else Inl ''cvtColor: invalid number of channels'')
      else (if mat_channels m = 3 then Inr (m\<lparr>mat_data := rev (mat_data m)\<rparr>)
            else Inl ''cvtColor: invalid number of channels''))"

definition sample_compress ::
  "tjhandle \<Rightarrow> Mat \<Rightarrow> PixelFormat \<Rightarrow> int \<Rightarrow> int \<Rightarrow> int \<Rightarrow> string + byte list" where
  "sample_compress h m pf ss q flags =
     (if cols m < 1 \<or> rows m < 1 then Inl ''Invalid argument''
      else Inr (replicate (nat (cols m) + 2) 255))"

definition sample_prims :: prims where
  "sample_prims =
     \<lparr>cv_resize = sample_resize,
      cv_cvtColor = sample_cvtColor,
      cv_convertTo = (\<lambda>m t alpha. Inr (m\<lparr>mat_depth := fst t\<rparr>)),
      cv_split = (\<lambda>m. Inr (replicate (nat (mat_channels m)) (m\<lparr>mat_channels := 1\<rparr>))),
      cv_sub_div = (\<lambda>m a b. Inr m),
      cv_merge = (\<lambda>ms. case ms of [] \<Rightarrow> Inl ''merge: no input''
                         | m # _ \<Rightarrow> Inr (m\<lparr>mat_channels := int (length ms)\<rparr>)),
      tjCompress2 = sample_compress\<rparr>"

definition sample_frame :: "int \<Rightarrow> int \<Rightarrow> int \<Rightarrow> Mat" where
  "sample_frame h w c =
     \<lparr>rows = h, cols = w, mat_channels = c, mat_depth = CV_8U,
      mat_data = replicate (nat h * nat w * nat c) 7\<rparr>"

definition sample_jpeg_config :: JPEGConfig where
  "sample_jpeg_config = \<lparr>quality = 85, subsample = 2, optimize = True, progressive = False\<rparr>"

definition sample_processor :: FrameProcessor where
  "sample_processor =
     \<lparr>jpeg_compressor = 1, num_threads = 2, frames_processed = 0, bytes_encoded = 0,
      tj_next = 2, cur_thread = 0, tj_log = []\<rparr>"

definition sample_preprocess_config :: PreprocessConfig where
  "sample_preprocess_config =
     \<lparr>target_width = 4, target_height = 4, normalize_on = False, rgb_conversion = False,
      mean = (0, 0, 0), std = (1, 1, 1), interpolation = 1\<rparr>"

section \<open>Properties\<close>

lemmas sample_defs = sample_prims_def sample_resize_def sample_cvtColor_def
  sample_compress_def sample_frame_def sample_jpeg_config_def sample_processor_def

lemmas eval_defs = encode_jpeg_def encode_jpeg_internal_def reset_stats_def fail_def Let_def
  fresh_result_def total_def elemSize_def TJFLAG_FASTDCT_def

subsection \<open>Statistics\<close>

lemma encode_stats:
  assumes "encode_jpeg_internal P st f cfg = (r, st')"
  shows "(success r \<longrightarrow> frames_processed st' = frames_processed st + 1
            \<and> bytes_encoded st' = bytes_encoded st + of_nat (length (data r)))
         \<and> (\<not> success r \<longrightarrow> frames_processed st' = frames_processed st
            \<and> bytes_encoded st' = bytes_encoded st)"
  using assms
  by (auto simp add: encode_jpeg_internal_def fail_def Let_def fresh_result_def
      split: sum.splits if_splits)

lemma resize_stats:
  assumes "resize_frame P st f w h interp = (r, st')"
  shows "(success r \<longrightarrow> frames_processed st' = frames_processed st + 1
            \<and> bytes_encoded st' = bytes_encoded st)
         \<and> (\<not> success r \<longrightarrow> frames_processed st' = frames_processed st
            \<and> bytes_encoded st' = bytes_encoded st)"
  using assms
  by (auto simp add: resize_frame_def fail_def Let_def fresh_result_def split: sum.splits)

lemma preprocess_stats:
  assumes "preprocess_for_inference P st f pc = Some (r, st')"
  shows "(success r \<longrightarrow> frames_processed st' = frames_processed st + 1
            \<and> bytes_encoded st' = bytes_encoded st)
         \<and> (\<not> success r \<longrightarrow> frames_processed st' = frames_processed st
            \<and> bytes_encoded st' = bytes_encoded st)"
  using assms
  by (auto simp add: preprocess_for_inference_def fail_def Let_def fresh_result_def
      split: outcome.splits)

lemma preprocess_and_encode_stats:
  assumes "preprocess_and_encode P st f pc jc = Some (r, st')"
  shows "(success r \<longrightarrow> frames_processed st' = frames_processed st + 1
            \<and> bytes_encoded st' = bytes_encoded st + of_nat (length (data r)))
         \<and> (\<not> success r \<longrightarrow> frames_processed st' = frames_processed st
            \<and> bytes_encoded st' = bytes_encoded st)"
proof (cases "preprocess_internal P f pc")
  case (Returned m)
  with assms have "encode_jpeg_internal P st m jc = (r, st')"
    by (simp add: preprocess_and_encode_def)
  then show ?thesis by (rule encode_stats)
next
  case (Thrown e)
  with assms show ?thesis
    by (auto simp add: preprocess_and_encode_def fail_def fresh_result_def)
next
  case Undefined_Behaviour
  with assms show ?thesis by (simp add: preprocess_and_encode_def)
qed

lemma encode_each_stats:
  "encode_each P st frames cfg = (rs, st') \<Longrightarrow> list_all success rs \<Longrightarrow>
     length rs = length frames
     \<and> frames_processed st' = frames_processed st + of_nat (length frames)
     \<and> bytes_encoded st' = bytes_encoded st + of_nat (sum_list (map (\<lambda>r. length (data r)) rs))"
proof (induction frames arbitrary: st rs st')
  case Nil
  then show ?case by simp
next
  case (Cons f fs)
  obtain r st1 where e1: "encode_jpeg_internal P st f cfg = (r, st1)"
    by (cases "encode_jpeg_internal P st f cfg") auto
  obtain rs1 st2 where e2: "encode_each P st1 fs cfg = (rs1, st2)"
    by (cases "encode_each P st1 fs cfg") auto
  from Cons.prems(1) e1 e2 have eq: "rs = r # rs1" "st' = st2"
    by (simp_all add: encode_jpeg_def)
  with Cons.prems(2) have sr: "success r" and sall: "list_all success rs1" by simp_all
  from encode_stats [OF e1] sr have s1: "frames_processed st1 = frames_processed st + 1"
      "bytes_encoded st1 = bytes_encoded st + of_nat (length (data r))" by simp_all
  from Cons.IH [OF e2 sall] s1 eq show ?case by simp
qed

text \<open>
  Claim C7. Statistics are exact success accounting. Each single-frame operation
  (\<^verbatim>\<open>encode_jpeg\<close>, \<^verbatim>\<open>resize_frame\<close>, \<^verbatim>\<open>preprocess_for_inference\<close>,
  \<^verbatim>\<open>preprocess_and_encode\<close>) increments \<^verbatim>\<open>frames_processed_\<close> by one when it
  succeeds (the encoding ones also add the codestream length to \<^verbatim>\<open>bytes_encoded_\<close>)
  and leaves both counters as they were when it fails. After \<^verbatim>\<open>reset_stats()\<close>,
  \<open>K\<close> encodes that all succeed leave \<^verbatim>\<open>frames_processed_\<close> equal to \<open>K\<close> and
  \<^verbatim>\<open>bytes_encoded_\<close> equal to the sum of the \<open>K\<close> codestream lengths. The counters are
  64-bit: the equalities hold as words, and as numbers when \<open>K\<close> and the sum are below
  \<open>2 ^ 64\<close>.
\<close>

theorem stats_exact_accounting:
  fixes frames :: "Mat list"
  assumes run: "encode_each P (reset_stats st) frames cfg = (rs, st')"
    and ok: "list_all success rs"
  shows "length rs = length frames
         \<and> frames_processed st' = of_nat (length frames)
         \<and> bytes_encoded st' = of_nat (sum_list (map (\<lambda>r. length (data r)) rs))
         \<and> (length frames < 2 ^ 64 \<longrightarrow> unat (frames_processed st') = length frames)
         \<and> (sum_list (map (\<lambda>r. length (data r)) rs) < 2 ^ 64 \<longrightarrow>
              unat (bytes_encoded st') = sum_list (map (\<lambda>r. length (data r)) rs))
         \<and> (encode_jpeg P s f cfg = (r, s') \<longrightarrow>
              (if success r
               then frames_processed s' = frames_processed s + 1
                    \<and> bytes_encoded s' = bytes_encoded s + of_nat (length (data r))
               else frames_processed s' = frames_processed s
                    \<and> bytes_encoded s' = bytes_encoded s))
         \<and> (resize_frame P s f w h interp = (r, s') \<longrightarrow>
              (if success r
               then frames_processed s' = frames_processed s + 1
                    \<and> bytes_encoded s' = bytes_encoded s
               else frames_processed s' = frames_processed s
                    \<and> bytes_encoded s' = bytes_encoded s))
         \<and> (preprocess_for_inference P s f pc = Some (r, s') \<longrightarrow>
              (if success r
               then frames_processed s' = frames_processed s + 1
                    \<and> bytes_encoded s' = bytes_encoded s
               else frames_processed s' = frames_processed s
                    \<and> bytes_encoded s' = bytes_encoded s))
         \<and> (preprocess_and_encode P s f pc cfg = Some (r, s') \<longrightarrow>
              (if success r
               then frames_processed s' = frames_processed s + 1
                    \<and> bytes_encoded s' = bytes_encoded s + of_nat (length (data r))
               else frames_processed s' = frames_processed s
                    \<and> bytes_encoded s' = bytes_encoded s))"
proof -
  have z: "frames_processed (reset_stats st) = 0" "bytes_encoded (reset_stats st) = 0"
    by (simp_all add: reset_stats_def)
  from encode_each_stats [OF run ok] z
  have a: "length rs = length frames" "frames_processed st' = of_nat (length frames)"
    "bytes_encoded st' = of_nat (sum_list (map (\<lambda>r. length (data r)) rs))"
    by simp_all
  have b: "n < 2 ^ 64 \<Longrightarrow> unat (of_nat n :: 64 word) = n" for n
    by (simp add: unat_of_nat)
  have k: "length rs = length frames
         \<and> frames_processed st' = of_nat (length frames)
         \<and> bytes_encoded st' = of_nat (sum_list (map (\<lambda>r. length (data r)) rs))
         \<and> (length frames < 2 ^ 64 \<longrightarrow> unat (frames_processed st') = length frames)
         \<and> (sum_list (map (\<lambda>r. length (data r)) rs) < 2 ^ 64 \<longrightarrow>
              unat (bytes_encoded st') = sum_list (map (\<lambda>r. length (data r)) rs))"
    using a b by simp
  have e: "encode_jpeg P s f cfg = (r, s') \<longrightarrow>
              (if success r
               then frames_processed s' = frames_processed s + 1
                    \<and> bytes_encoded s' = bytes_encoded s + of_nat (length (data r))
               else frames_processed s' = frames_processed s
                    \<and> bytes_encoded s' = bytes_encoded s)"
    using encode_stats [of P s f cfg r s'] by (simp add: encode_jpeg_def)
  have rz: "resize_frame P s f w h interp = (r, s') \<longrightarrow>
              (if success r
               then frames_processed s' = frames_processed s + 1
                    \<and> bytes_encoded s' = bytes_encoded s
               else frames_processed s' = frames_processed s
                    \<and> bytes_encoded s' = bytes_encoded s)"
    using resize_stats [of P s f w h interp r s'] by simp
  have pp: "preprocess_for_inference P s f pc = Some (r, s') \<longrightarrow>
              (if success r
               then frames_processed s' = frames_processed s + 1
                    \<and> bytes_encoded s' = bytes_encoded s
               else frames_processed s' = frames_processed s
                    \<and> bytes_encoded s' = bytes_encoded s)"
    using preprocess_stats [of P s f pc r s'] by simp
  have pe: "preprocess_and_encode P s f pc cfg = Some (r, s') \<longrightarrow>
              (if success r
               then frames_processed s' = frames_processed s + 1
                    \<and> bytes_encoded s' = bytes_encoded s + of_nat (length (data r))
               else frames_processed s' = frames_processed s
                    \<and> bytes_encoded s' = bytes_encoded s)"
    using preprocess_and_encode_stats [of P s f pc cfg r s'] by simp
  from k e rz pp pe show ?thesis by blast
qed

theorem stats_exact_accounting_witness:
  "list_all success (fst (encode_each sample_prims (reset_stats sample_processor)
       [sample_frame 2 3 3, sample_frame 2 5 1] sample_jpeg_config))
   \<and> unat (frames_processed (snd (encode_each sample_prims (reset_stats sample_processor)
       [sample_frame 2 3 3, sample_frame 2 5 1] sample_jpeg_config))) = 2
   \<and> unat (bytes_encoded (snd (encode_each sample_prims (reset_stats sample_processor)
       [sample_frame 2 3 3, sample_frame 2 5 1] sample_jpeg_config))) = 5 + 7"
proof -
  let ?run = "encode_each sample_prims (reset_stats sample_processor)
       [sample_frame 2 3 3, sample_frame 2 5 1] sample_jpeg_config"
  have run: "?run = (fst ?run, snd ?run)" by simp
  have ok: "list_all success (fst ?run)"
    by (simp add: sample_defs eval_defs)
  have len: "map (\<lambda>r. length (data r)) (fst ?run) = [5, 7]"
    by (simp add: sample_defs eval_defs)
  from stats_exact_accounting [OF run ok] ok len show ?thesis by simp
qed

subsection \<open>Encoding\<close>

text \<open>
  Claim C6. For every buffer passed to encode: a 1-channel or a 3-channel buffer is
  accepted, that is, handed to the codec as it is (as grey and as BGR), and the result is
  the codec's; a 4-channel buffer is first reduced to 3 channels by the color conversion
  and the reduced buffer is encoded, successfully when the conversion and the codec
  succeed; every other channel count yields \<^verbatim>\<open>success = false\<close> with the message
  \<^verbatim>\<open>Unsupported channel count\<close>, no data, no codec invocation (the log of invocations
  and the counters are unchanged).
\<close>

theorem encode_channel_dispatch:
  fixes P :: prims and st :: FrameProcessor and f :: Mat and cfg :: JPEGConfig
  defines "r \<equiv> fst (encode_jpeg_internal P st f cfg)"
    and "st' \<equiv> snd (encode_jpeg_internal P st f cfg)"
    and "codec \<equiv> (\<lambda>m pf. tjCompress2 P (jpeg_compressor st) m pf (subsample cfg) (quality cfg)
                             (if optimize cfg then TJFLAG_FASTDCT else 0))"
  shows "(mat_channels f = 1 \<longrightarrow>
            tj_log st' = tj_log st @ [(cur_thread st, jpeg_compressor st)]
            \<and> (case codec f TJPF_GRAY of
                 Inr jpeg \<Rightarrow> success r \<and> data r = jpeg
               | Inl e \<Rightarrow> \<not> success r \<and> error_msg r = ''turbojpeg compression failed: '' @ e))
       \<and> (mat_channels f = 3 \<longrightarrow>
            tj_log st' = tj_log st @ [(cur_thread st, jpeg_compressor st)]
            \<and> (case codec f TJPF_BGR of
                 Inr jpeg \<Rightarrow> success r \<and> data r = jpeg
               | Inl e \<Rightarrow> \<not> success r \<and> error_msg r = ''turbojpeg compression failed: '' @ e))
       \<and> (mat_channels f = 4 \<longrightarrow>
            (\<forall>m jpeg. cv_cvtColor P f COLOR_BGRA2BGR = Inr m \<and> mat_channels m = 3
                        \<and> codec m TJPF_BGR = Inr jpeg \<longrightarrow>
               success r \<and> data r = jpeg
               \<and> tj_log st' = tj_log st @ [(cur_thread st, jpeg_compressor st)]))
       \<and> (mat_channels f \<noteq> 1 \<and> mat_channels f \<noteq> 3 \<and> mat_channels f \<noteq> 4 \<longrightarrow>
            \<not> success r \<and> error_msg r = ''Unsupported channel count'' \<and> data r = []
            \<and> st' = st)"
  unfolding r_def st'_def codec_def
  by (auto simp add: encode_jpeg_internal_def fail_def Let_def fresh_result_def split: sum.splits)

theorem encode_channel_dispatch_witness:
  "(let r1 = fst (encode_jpeg_internal sample_prims sample_processor (sample_frame 2 5 1) sample_jpeg_config);
        r3 = fst (encode_jpeg_internal sample_prims sample_processor (sample_frame 2 3 3) sample_jpeg_config);
        r4 = fst (encode_jpeg_internal sample_prims sample_processor (sample_frame 2 3 4) sample_jpeg_config);
        r2 = fst (encode_jpeg_internal sample_prims sample_processor (sample_frame 2 3 2) sample_jpeg_config)
    in success r1 \<and> data r1 = replicate 7 255
       \<and> success r3 \<and> data r3 = replicate 5 255
       \<and> success r4 \<and> data r4 = replicate 5 255
       \<and> \<not> success r2 \<and> error_msg r2 = ''Unsupported channel count'')"
proof -
  have c1: "mat_channels (sample_frame 2 5 1) = 1"
    and c3: "mat_channels (sample_frame 2 3 3) = 3"
    and c4: "mat_channels (sample_frame 2 3 4) = 4"
    and c2: "mat_channels (sample_frame 2 3 2) \<noteq> 1 \<and> mat_channels (sample_frame 2 3 2) \<noteq> 3
             \<and> mat_channels (sample_frame 2 3 2) \<noteq> 4"
    by (simp_all add: sample_frame_def)
  have k1: "tjCompress2 sample_prims (jpeg_compressor sample_processor) (sample_frame 2 5 1)
              TJPF_GRAY (subsample sample_jpeg_config) (quality sample_jpeg_config)
              (if optimize sample_jpeg_config then TJFLAG_FASTDCT else 0) = Inr (replicate 7 255)"
    by (simp add: sample_defs)
  have k3: "tjCompress2 sample_prims (jpeg_compressor sample_processor) (sample_frame 2 3 3)
              TJPF_BGR (subsample sample_jpeg_config) (quality sample_jpeg_config)
              (if optimize sample_jpeg_config then TJFLAG_FASTDCT else 0) = Inr (replicate 5 255)"
    by (simp add: sample_defs)
  have v4: "cv_cvtColor sample_prims (sample_frame 2 3 4) COLOR_BGRA2BGR
              = Inr ((sample_frame 2 3 4)\<lparr>mat_channels := 3, mat_data := replicate 18 0\<rparr>)"
    by (simp add: sample_defs total_def)
  have k4: "tjCompress2 sample_prims (jpeg_compressor sample_processor)
              ((sample_frame 2 3 4)\<lparr>mat_channels := 3, mat_data := replicate 18 0\<rparr>)
              TJPF_BGR (subsample sample_jpeg_config) (quality sample_jpeg_config)
              (if optimize sample_jpeg_config then TJFLAG_FASTDCT else 0) = Inr (replicate 5 255)"
    by (simp add: sample_defs)
  have m4: "mat_channels ((sample_frame 2 3 4)\<lparr>mat_channels := 3, mat_data := replicate 18 0\<rparr>) = 3"
    by simp
  note d1 = encode_channel_dispatch [of "sample_frame 2 5 1" sample_prims sample_processor sample_jpeg_config]
  note d3 = encode_channel_dispatch [of "sample_frame 2 3 3" sample_prims sample_processor sample_jpeg_config]
  note d4 = encode_channel_dispatch [of "sample_frame 2 3 4" sample_prims sample_processor sample_jpeg_config]
  note d2 = encode_channel_dispatch [of "sample_frame 2 3 2" sample_prims sample_processor sample_jpeg_config]
  from d1 c1 k1 have w1: "success (fst (encode_jpeg_internal sample_prims sample_processor (sample_frame 2 5 1) sample_jpeg_config))
     \<and> data (fst (encode_jpeg_internal sample_prims sample_processor (sample_frame 2 5 1) sample_jpeg_config)) = replicate 7 255"
    by simp
  from d3 c3 k3 have w3: "success (fst (encode_jpeg_internal sample_prims sample_processor (sample_frame 2 3 3) sample_jpeg_config))
     \<and> data (fst (encode_jpeg_internal sample_prims sample_processor (sample_frame 2 3 3) sample_jpeg_config)) = replicate 5 255"
    by simp
  from d4 c4 v4 m4 k4 have w4: "success (fst (encode_jpeg_internal sample_prims sample_processor (sample_frame 2 3 4) sample_jpeg_config))
     \<and> data (fst (encode_jpeg_internal sample_prims sample_processor (sample_frame 2 3 4) sample_jpeg_config)) = replicate 5 255"
    by blast
  from d2 c2 have w2: "\<not> success (fst (encode_jpeg_internal sample_prims sample_processor (sample_frame 2 3 2) sample_jpeg_config))
     \<and> error_msg (fst (encode_jpeg_internal sample_prims sample_processor (sample_frame 2 3 2) sample_jpeg_config)) = ''Unsupported channel count''"
    by blast
  from w1 w3 w4 w2 show ?thesis by (simp add: Let_def)
qed

text \<open>
  Claim C10. For every 4-channel input buffer, a successful encode returns a result whose
  \<^verbatim>\<open>channels\<close> field is 4, the channel count of the input frame recorded before the
  conversion, although the codestream is the codec's output on the converted buffer.
\<close>

theorem encode_reports_input_channels:
  assumes "mat_channels f = 4" and "success (fst (encode_jpeg_internal P st f cfg))"
  shows "channels (fst (encode_jpeg_internal P st f cfg)) = Some 4
         \<and> (\<exists>m. cv_cvtColor P f COLOR_BGRA2BGR = Inr m
                \<and> tjCompress2 P (jpeg_compressor st) m
                     (if mat_channels m = 1 then TJPF_GRAY else TJPF_BGR)
                     (subsample cfg) (quality cfg) (if optimize cfg then TJFLAG_FASTDCT else 0)
                   = Inr (data (fst (encode_jpeg_internal P st f cfg))))"
  using assms
  by (auto simp add: encode_jpeg_internal_def fail_def Let_def fresh_result_def split: sum.splits if_splits)

theorem encode_reports_input_channels_witness:
  "mat_channels (sample_frame 2 3 4) = 4
   \<and> success (fst (encode_jpeg_internal sample_prims sample_processor (sample_frame 2 3 4)
                     sample_jpeg_config))
   \<and> channels (fst (encode_jpeg_internal sample_prims sample_processor (sample_frame 2 3 4)
                     sample_jpeg_config)) = Some 4"
proof -
  have c: "mat_channels (sample_frame 2 3 4) = 4" by (simp add: sample_frame_def)
  have s: "success (fst (encode_jpeg_internal sample_prims sample_processor (sample_frame 2 3 4)
                     sample_jpeg_config))"
    by (simp add: sample_defs eval_defs)
  from encode_reports_input_channels [OF c s] c s show ?thesis by simp
qed

subsection \<open>Resizing\<close>




subsection \<open>Batches\<close>

text \<open>
  What the two batch operations return, for every schedule. \<^verbatim>\<open>batch_encode_jpeg\<close>
  writes the result of frame \<open>i\<close> to slot \<open>i\<close>, and that result is the one a single
  \<^verbatim>\<open>encode_jpeg\<close> call on the same processor gives. \<^verbatim>\<open>batch_preprocess\<close>
  returns as many results as there are frames when no frame runs into undefined
  behaviour, and slot \<open>k\<close> holds the single-call result of the frame whose iteration
  was the \<open>k\<close>-th to enter the critical section.
\<close>

lemma preprocess_result_state_independent:
  "map_option fst (preprocess_for_inference P st f c)
   = map_option fst (preprocess_for_inference P st0 f c)"
  by (simp add: preprocess_for_inference_def Let_def split: outcome.splits)

lemma preprocess_defined:
  "preprocess_internal P f c \<noteq> Undefined_Behaviour \<Longrightarrow>
     \<exists>r st'. preprocess_for_inference P st f c = Some (r, st')"
  by (simp add: preprocess_for_inference_def Let_def split: outcome.splits)

lemma batch_preprocess_loop_results:
  assumes "\<forall>i \<in> set sched. preprocess_internal P (frames ! i) config \<noteq> Undefined_Behaviour"
  shows "\<exists>rs st'. batch_preprocess_loop P frames config sched acc st = Some (acc @ rs, st')
           \<and> length rs = length sched
           \<and> (\<forall>k < length sched.
                 map_option fst (preprocess_for_inference P st0 (frames ! (sched ! k)) config)
                 = Some (rs ! k))"
  using assms
proof (induction sched arbitrary: acc st)
  case Nil
  then show ?case by simp
next
  case (Cons i rest)
  from Cons.prems have d: "preprocess_internal P (frames ! i) config \<noteq> Undefined_Behaviour"
    and dr: "\<forall>j \<in> set rest. preprocess_internal P (frames ! j) config \<noteq> Undefined_Behaviour"
    by simp_all
  from preprocess_defined [OF d] obtain r st1
    where s1: "preprocess_for_inference P st (frames ! i) config = Some (r, st1)" by blast
  from Cons.IH [OF dr, of "acc @ [r]" st1] obtain rs st'
    where l: "batch_preprocess_loop P frames config rest (acc @ [r]) st1 = Some ((acc @ [r]) @ rs, st')"
      and n: "length rs = length rest"
      and e: "\<forall>k < length rest.
                 map_option fst (preprocess_for_inference P st0 (frames ! (rest ! k)) config)
                 = Some (rs ! k)"
    by blast
  have h: "map_option fst (preprocess_for_inference P st0 (frames ! i) config) = Some r"
    using preprocess_result_state_independent [of P st0 "frames ! i" config st] s1 by simp
  have "\<forall>k < length (i # rest).
          map_option fst (preprocess_for_inference P st0 (frames ! ((i # rest) ! k)) config)
          = Some ((r # rs) ! k)"
  proof (intro allI impI)
    fix k assume "k < length (i # rest)"
    then show "map_option fst (preprocess_for_inference P st0 (frames ! ((i # rest) ! k)) config)
          = Some ((r # rs) ! k)"
      using h e by (cases k) simp_all
  qed
  with l n s1 show ?case
    by (intro exI [of _ "r # rs"] exI [of _ st']) simp
qed

lemma batch_preprocess_results:
  assumes "valid_schedule (length frames) sched"
    and "\<forall>i < length frames. preprocess_internal P (frames ! i) config \<noteq> Undefined_Behaviour"
  shows "\<exists>rs st'. batch_preprocess P st frames config sched = Some (rs, st')
           \<and> length rs = length frames
           \<and> (\<forall>k < length frames.
                 map_option fst (preprocess_for_inference P st0 (frames ! (sched ! k)) config)
                 = Some (rs ! k))"
proof -
  from assms(1) have s: "set sched = {..<length frames}" and d: "distinct sched"
    by (simp_all add: valid_schedule_def)
  from d s have n: "length sched = length frames"
    using distinct_card [of sched] by simp
  from s assms(2)
  have "\<forall>i \<in> set sched. preprocess_internal P (frames ! i) config \<noteq> Undefined_Behaviour"
    by simp
  from batch_preprocess_loop_results [OF this, of "[]" st st0] n show ?thesis
    by (simp add: batch_preprocess_def)
qed

lemma encode_result_state_independent:
  assumes h: "jpeg_compressor st0 = jpeg_compressor st"
  shows "fst (encode_jpeg_internal P st0 f c) = fst (encode_jpeg_internal P st f c)"
proof (cases "if mat_channels f = 4 then cv_cvtColor P f COLOR_BGRA2BGR else Inr f")
  case (Inl e)
  then show ?thesis by (simp add: encode_jpeg_internal_def Let_def)
next
  case (Inr m)
  show ?thesis
  proof (cases "mat_channels m = 1 \<or> mat_channels m = 3")
    case False
    with Inr show ?thesis by (simp add: encode_jpeg_internal_def Let_def)
  next
    case True
    show ?thesis
    proof (cases "tjCompress2 P (jpeg_compressor st) m
                    (if mat_channels m = 1 then TJPF_GRAY else TJPF_BGR)
                    (subsample c) (quality c) (if optimize c then TJFLAG_FASTDCT else 0)")
      case (Inl err)
      with Inr True h show ?thesis by (auto simp add: encode_jpeg_internal_def Let_def)
    next
      case (Inr jpeg)
      with \<open>(if mat_channels f = 4 then cv_cvtColor P f COLOR_BGRA2BGR else Inr f) = Inr m\<close> True h
      show ?thesis by (auto simp add: encode_jpeg_internal_def Let_def)
    qed
  qed
qed

lemma encode_keeps_compressor:
  "jpeg_compressor (snd (encode_jpeg_internal P st f c)) = jpeg_compressor st"
  by (simp add: encode_jpeg_internal_def Let_def split: sum.splits)

lemma batch_encode_loop_slots:
  "batch_encode_loop P frames config sched results st = (rs, st') \<Longrightarrow>
     jpeg_compressor st0 = jpeg_compressor st \<Longrightarrow>
     length rs = length results
     \<and> jpeg_compressor st' = jpeg_compressor st
     \<and> (\<forall>i < length results.
           rs ! i = (if i \<in> snd ` set sched
                     then fst (encode_jpeg_internal P st0 (frames ! i) config)
                     else results ! i))"
proof (induction sched arbitrary: results st)
  case Nil
  then show ?case by simp
next
  case (Cons a rest)
  obtain t i where a: "a = (t, i)" by (cases a)
  obtain r st1 where e: "encode_jpeg_internal P (st\<lparr>cur_thread := t\<rparr>) (frames ! i) config = (r, st1)"
    by (cases "encode_jpeg_internal P (st\<lparr>cur_thread := t\<rparr>) (frames ! i) config")
  from encode_keeps_compressor [of P "st\<lparr>cur_thread := t\<rparr>" "frames ! i" config] e
  have c1: "jpeg_compressor st1 = jpeg_compressor st" by simp
  from encode_result_state_independent [of st0 "st\<lparr>cur_thread := t\<rparr>" P "frames ! i" config]
    Cons.prems(2) e
  have r: "r = fst (encode_jpeg_internal P st0 (frames ! i) config)" by simp
  from Cons.prems(1) a e
  have l: "batch_encode_loop P frames config rest (results[i := r]) st1 = (rs, st')" by simp
  from Cons.prems(2) c1 have c0: "jpeg_compressor st0 = jpeg_compressor st1" by simp
  from Cons.IH [OF l c0]
  have ih: "length rs = length (results[i := r])" "jpeg_compressor st' = jpeg_compressor st1"
    "\<forall>j < length (results[i := r]).
           rs ! j = (if j \<in> snd ` set rest
                     then fst (encode_jpeg_internal P st0 (frames ! j) config)
                     else (results[i := r]) ! j)"
    by simp_all
  have "\<forall>j < length results.
           rs ! j = (if j \<in> snd ` set (a # rest)
                     then fst (encode_jpeg_internal P st0 (frames ! j) config)
                     else results ! j)"
  proof (intro allI impI)
    fix j assume j: "j < length results"
    with ih(3) have "rs ! j = (if j \<in> snd ` set rest
                     then fst (encode_jpeg_internal P st0 (frames ! j) config)
                     else (results[i := r]) ! j)" by simp
    then show "rs ! j = (if j \<in> snd ` set (a # rest)
                     then fst (encode_jpeg_internal P st0 (frames ! j) config)
                     else results ! j)"
      using a r j by (cases "j = i") auto
  qed
  with ih(1,2) c1 show ?case by simp
qed

lemma init_team_keeps_compressor:
  "jpeg_compressor (snd (init_team n st)) = jpeg_compressor st"
  by (induction n arbitrary: st) (simp_all add: tjInitCompress_def split_def Let_def)

lemma batch_encode_jpeg_slots:
  assumes v: "valid_schedule (length frames) (map snd sched)"
    and c: "jpeg_compressor st0 = jpeg_compressor st"
  shows "length (fst (batch_encode_jpeg P st frames config team sched)) = length frames
         \<and> (\<forall>i < length frames.
               fst (batch_encode_jpeg P st frames config team sched) ! i
               = fst (encode_jpeg P st0 (frames ! i) config))"
proof -
  obtain hs st1 where t: "init_team team st = (hs, st1)"
    by (cases "init_team team st")
  obtain rs st2 where l: "batch_encode_loop P frames config sched
      (replicate (length frames) value_init_result) st1 = (rs, st2)"
    by (cases "batch_encode_loop P frames config sched
      (replicate (length frames) value_init_result) st1")
  from init_team_keeps_compressor [of team st] t c
  have c1: "jpeg_compressor st0 = jpeg_compressor st1" by simp
  from v have s: "snd ` set sched = {..<length frames}"
    by (simp add: valid_schedule_def)
  from batch_encode_loop_slots [OF l c1] s
  have "length rs = length frames"
    "\<forall>i < length frames. rs ! i = fst (encode_jpeg_internal P st0 (frames ! i) config)"
    by simp_all
  moreover have "fst (batch_encode_jpeg P st frames config team sched) = rs"
    using t l by (simp add: batch_encode_jpeg_def)
  ultimately show ?thesis by (simp add: encode_jpeg_def)
qed

lemmas preprocess_eval_defs = batch_preprocess_def preprocess_for_inference_def
  preprocess_internal_def sample_preprocess_config_def contiguous_bytes_def

text \<open>
  Claim C1. The claim: for every frame collection of size \<open>N\<close> and every configuration,
  \<^verbatim>\<open>batch_preprocess\<close> and \<^verbatim>\<open>batch_encode_jpeg\<close> return exactly \<open>N\<close> results and
  result \<open>i\<close> corresponds to input frame \<open>i\<close>, whatever the scheduling.
  \<^verbatim>\<open>batch_preprocess\<close> breaks it: with two frames, a 1-channel frame at index 0 and a
  3-channel frame at index 1, and the iteration of frame 1 entering the critical section
  first, result 0 is the result of frame 1 (3 channels) and result 1 that of frame 0,
  while frame 0 on its own gives a 1-channel result.
\<close>

theorem batch_preprocess_permutes_results:
  "map_option (map channels \<circ> fst)
     (batch_preprocess sample_prims sample_processor
        [sample_frame 2 2 1, sample_frame 2 2 3] sample_preprocess_config [1, 0])
   = Some [Some 3, Some 1]
   \<and> map_option (channels \<circ> fst)
       (preprocess_for_inference sample_prims sample_processor
          (sample_frame 2 2 1) sample_preprocess_config)
     = Some (Some 1)"
  by (simp add: preprocess_eval_defs sample_defs eval_defs)

text \<open>
  Claim C4. The claim: in every batch, the failure of one frame populates only the result
  slot of that frame, every sibling that succeeds on its own still succeeds, and the batch
  returns a result for every frame. \<^verbatim>\<open>batch_preprocess\<close> breaks it: with a frame of
  width zero at index 0, a valid frame at index 1, and the iteration of frame 1 entering
  the critical section first, slot 0 reports success and slot 1, the slot of the valid
  frame, reports the failure, although on its own frame 0 fails and frame 1 succeeds.
\<close>

theorem batch_preprocess_misplaces_failure:
  "map_option (map success \<circ> fst)
     (batch_preprocess sample_prims sample_processor
        [sample_frame 2 0 3, sample_frame 2 2 3] sample_preprocess_config [1, 0])
   = Some [True, False]
   \<and> map_option (success \<circ> fst)
       (preprocess_for_inference sample_prims sample_processor
          (sample_frame 2 0 3) sample_preprocess_config)
     = Some False
   \<and> map_option (success \<circ> fst)
       (preprocess_for_inference sample_prims sample_processor
          (sample_frame 2 2 3) sample_preprocess_config)
     = Some True"
  by (simp add: preprocess_eval_defs sample_defs eval_defs)

text \<open>
  The handles of a batch encode, for every schedule: every \<^verbatim>\<open>tjCompress2\<close>
  invocation the batch adds to the log passes the processor's member
  \<^verbatim>\<open>jpeg_compressor_\<close>, and the handles the threads of the team create are the next
  addresses, one for each thread.
\<close>

lemma encode_state_fields:
  "tj_log (snd (encode_jpeg_internal P st f c)) = tj_log st
   \<or> tj_log (snd (encode_jpeg_internal P st f c))
       = tj_log st @ [(cur_thread st, jpeg_compressor st)]"
proof (cases "if mat_channels f = 4 then cv_cvtColor P f COLOR_BGRA2BGR else Inr f")
  case (Inl e)
  then show ?thesis by (simp add: encode_jpeg_internal_def Let_def)
next
  case conv: (Inr m)
  show ?thesis
  proof (cases "mat_channels m = 1 \<or> mat_channels m = 3")
    case False
    with conv show ?thesis by (simp add: encode_jpeg_internal_def Let_def)
  next
    case True
    show ?thesis
    proof (cases "tjCompress2 P (jpeg_compressor st) m
                    (if mat_channels m = 1 then TJPF_GRAY else TJPF_BGR)
                    (subsample c) (quality c) (if optimize c then TJFLAG_FASTDCT else 0)")
      case (Inl err)
      with conv True show ?thesis by (auto simp add: encode_jpeg_internal_def Let_def)
    next
      case (Inr jpeg)
      with conv True show ?thesis by (auto simp add: encode_jpeg_internal_def Let_def)
    qed
  qed
qed

lemma encode_log_handles:
  "snd ` set (tj_log (snd (encode_jpeg_internal P st f c)))
     \<subseteq> snd ` set (tj_log st) \<union> {jpeg_compressor st}"
  using encode_state_fields [of P st f c] by (elim disjE) auto

lemma batch_encode_loop_log_handles:
  "snd ` set (tj_log (snd (batch_encode_loop P frames config sched results st)))
     \<subseteq> snd ` set (tj_log st) \<union> {jpeg_compressor st}"
proof (induction sched arbitrary: results st)
  case Nil
  then show ?case by auto
next
  case (Cons a rest)
  obtain t i where a: "a = (t, i)" by (cases a)
  let ?s = "st\<lparr>cur_thread := t\<rparr>"
  obtain r st1 where e: "encode_jpeg_internal P ?s (frames ! i) config = (r, st1)"
    by (cases "encode_jpeg_internal P ?s (frames ! i) config")
  from encode_log_handles [of P ?s "frames ! i" config] e
  have l1: "snd ` set (tj_log st1) \<subseteq> snd ` set (tj_log st) \<union> {jpeg_compressor st}" by simp
  from encode_keeps_compressor [of P ?s "frames ! i" config] e
  have c1: "jpeg_compressor st1 = jpeg_compressor st" by simp
  from Cons.IH [of "results[i := r]" st1] l1 c1
  have "snd ` set (tj_log (snd (batch_encode_loop P frames config rest (results[i := r]) st1)))
     \<subseteq> snd ` set (tj_log st) \<union> {jpeg_compressor st}" by auto
  with a e show ?case by simp
qed

lemma init_team_keeps_log: "tj_log (snd (init_team n st)) = tj_log st"
  by (induction n arbitrary: st) (simp_all add: tjInitCompress_def split_def Let_def)

lemma init_team_handles:
  "fst (init_team n st) = map (\<lambda>k. tj_next st + k) [0..<n]"
proof (induction n arbitrary: st)
  case 0
  then show ?case by simp
next
  case (Suc n)
  have "map (\<lambda>k. tj_next st + k) [0..<Suc n]
        = tj_next st # map (\<lambda>k. Suc (tj_next st) + k) [0..<n]"
    by (simp add: upt_conv_Cons map_Suc_upt [symmetric] del: upt_Suc)
  with Suc [of "st\<lparr>tj_next := Suc (tj_next st)\<rparr>"] show ?case
    by (simp add: tjInitCompress_def split_def Let_def del: upt_Suc)
qed

lemma batch_encode_jpeg_log_handles:
  "snd ` set (tj_log (fst (snd (batch_encode_jpeg P st frames config team sched))))
     \<subseteq> snd ` set (tj_log st) \<union> {jpeg_compressor st}
   \<and> snd (snd (batch_encode_jpeg P st frames config team sched))
     = map (\<lambda>k. tj_next st + k) [0..<team]"
proof -
  let ?t = "init_team team st"
  have "snd ` set (tj_log (snd (batch_encode_loop P frames config sched
            (replicate (length frames) value_init_result) (snd ?t))))
     \<subseteq> snd ` set (tj_log (snd ?t)) \<union> {jpeg_compressor (snd ?t)}"
    by (rule batch_encode_loop_log_handles)
  then show ?thesis
    by (simp add: batch_encode_jpeg_def split_def Let_def init_team_keeps_log
        init_team_keeps_compressor init_team_handles)
qed

text \<open>
  Claim C2. The claim: in every batch encode each worker thread performs its codec
  invocations through its own turbojpeg handle, and no handle is shared across workers.
  The code breaks it: on the processor the constructor builds (member handle 1, two
  threads requested), with a team of two threads, a batch of two frames with iteration 0
  on thread 0 and iteration 1 on thread 1 logs the
  invocations \<open>(0, 1)\<close> and \<open>(1, 1)\<close>: both threads pass the member handle 1, and the
  handles 2 and 3 that the two threads created are never passed to the codec.
\<close>

theorem batch_encode_shares_member_handle:
  "FrameProcessor_ctor 2 1 2 = Inr sample_processor
   \<and> valid_team sample_processor 2
   \<and> valid_team_schedule 2 2 [(0, 0), (1, 1)]
   \<and> tj_log (fst (snd (batch_encode_jpeg sample_prims sample_processor
        [sample_frame 2 2 3, sample_frame 2 2 3] sample_jpeg_config 2 [(0, 0), (1, 1)])))
     = [(0, 1), (1, 1)]
   \<and> snd (snd (batch_encode_jpeg sample_prims sample_processor
        [sample_frame 2 2 3, sample_frame 2 2 3] sample_jpeg_config 2 [(0, 0), (1, 1)]))
     = [2, 3]"
proof -
  have "{..<2::nat} = {0, 1}" by auto
  then show ?thesis
    by (simp add: FrameProcessor_ctor_def tjInitCompress_def batch_encode_jpeg_def
        valid_team_def valid_team_schedule_def valid_schedule_def
        numeral_2_eq_2 value_init_result_def sample_defs eval_defs)
qed

subsection \<open>The per-channel loop\<close>

text \<open>
  \<^verbatim>\<open>normalize_frame\<close> never indexes the channel vector out of range. The loop of
  \<^verbatim>\<open>preprocess_internal\<close> does when \<^verbatim>\<open>cv::split\<close> returns fewer than three
  channels: with a 1-channel frame and a mean that is not zero, the single-frame operation
  and the batch that contains the frame have no defined result.
\<close>

lemma channel_loop_in_range:
  "\<forall>i \<in> set idxs. i < length chans \<Longrightarrow>
     channel_loop P mu sigma idxs chans \<noteq> Undefined_Behaviour"
proof (induction idxs arbitrary: chans)
  case Nil
  then show ?case by simp
next
  case (Cons i rest)
  show ?case
  proof (cases "cv_sub_div P (chans ! i) (at3 mu i) (at3 sigma i)")
    case (Inl e)
    with Cons.prems show ?thesis by simp
  next
    case (Inr c)
    from Cons.prems have "\<forall>j \<in> set rest. j < length (chans[i := c])" by simp
    from Cons.IH [OF this] Inr Cons.prems show ?thesis by simp
  qed
qed

lemma normalize_frame_defined:
  "normalize_frame P frame mu sigma \<noteq> Undefined_Behaviour"
proof (cases "cv_convertTo P frame CV_32FC3 (1 / 255)")
  case (Inl e)
  then show ?thesis by (simp add: normalize_frame_def)
next
  case conv: (Inr normalized)
  show ?thesis
  proof (cases "cv_split P normalized")
    case (Inl e)
    with conv show ?thesis by (simp add: normalize_frame_def)
  next
    case (Inr chans)
    have "channel_loop P mu sigma [0..<min 3 (length chans)] chans \<noteq> Undefined_Behaviour"
      by (rule channel_loop_in_range) simp
    then show ?thesis
      using conv Inr
      by (cases "channel_loop P mu sigma [0..<min 3 (length chans)] chans")
         (auto simp add: normalize_frame_def simp del: channel_loop.simps
            elim: lift.elims)
  qed
qed

lemma preprocess_gray_frame_undefined:
  "preprocess_internal sample_prims (sample_frame 2 2 1)
     (sample_preprocess_config\<lparr>normalize_on := True, mean := (1 / 2, 1 / 2, 1 / 2)\<rparr>)
   = Undefined_Behaviour
   \<and> batch_preprocess sample_prims sample_processor [sample_frame 2 2 1, sample_frame 2 2 3]
       (sample_preprocess_config\<lparr>normalize_on := True, mean := (1 / 2, 1 / 2, 1 / 2)\<rparr>) [0, 1]
     = None"
  by (simp add: preprocess_eval_defs sample_defs eval_defs CV_32FC3_def)

subsection \<open>Target dimensions that are not positive\<close>









subsection \<open>The thread pool\<close>

lemma worker_thread_stopped:
  "stop p \<Longrightarrow> worker_thread p = Some (p\<lparr>tasks := [], finished := finished p @ tasks p\<rparr>)"
proof (induction p rule: worker_thread.induct)
  case (1 p)
  show ?case
  proof (cases "tasks p")
    case Nil
    with "1.prems" show ?thesis by (simp add: worker_thread.simps [of p])
  next
    case (Cons t ts)
    let ?q = "p\<lparr>tasks := tl (tasks p), finished := finished p @ [hd (tasks p)]\<rparr>"
    from "1.prems" Cons have "worker_thread ?q
        = Some (?q\<lparr>tasks := [], finished := finished ?q @ tasks ?q\<rparr>)"
      by (intro "1.IH") simp_all
    with "1.prems" Cons show ?thesis by (simp add: worker_thread.simps [of p])
  qed
qed

lemma join_workers_stopped:
  "stop p \<Longrightarrow>
     \<exists>p'. join_workers idxs p = Some p' \<and> stop p'
          \<and> length (workers p') = length (workers p)
          \<and> (\<forall>i < length (workers p). workers p' ! i = (workers p ! i \<and> i \<notin> set idxs))
          \<and> (if \<exists>i \<in> set idxs. workers p ! i
              then tasks p' = [] \<and> finished p' = finished p @ tasks p
              else tasks p' = tasks p \<and> finished p' = finished p)"
proof (induction idxs arbitrary: p)
  case Nil
  then show ?case by simp
next
  case (Cons i rest)
  show ?case
  proof (cases "workers p ! i")
    case False
    from Cons.IH [OF Cons.prems] obtain p' where
      j: "join_workers rest p = Some p'" "stop p'" "length (workers p') = length (workers p)"
         "\<forall>k < length (workers p). workers p' ! k = (workers p ! k \<and> k \<notin> set rest)"
         "if \<exists>k \<in> set rest. workers p ! k
              then tasks p' = [] \<and> finished p' = finished p @ tasks p
              else tasks p' = tasks p \<and> finished p' = finished p"
      by blast
    from False j(4) have "\<forall>k < length (workers p). workers p' ! k = (workers p ! k \<and> k \<notin> set (i # rest))"
      by auto
    moreover from False j(5) have "if \<exists>k \<in> set (i # rest). workers p ! k
              then tasks p' = [] \<and> finished p' = finished p @ tasks p
              else tasks p' = tasks p \<and> finished p' = finished p"
      by simp
    ultimately show ?thesis using False j(1,2,3) by simp
  next
    case True
    let ?q = "p\<lparr>tasks := [], finished := finished p @ tasks p\<rparr>"
    let ?p1 = "?q\<lparr>workers := (workers ?q)[i := False]\<rparr>"
    have s1: "stop ?p1" using Cons.prems by simp
    from Cons.IH [OF s1] obtain p' where
      j: "join_workers rest ?p1 = Some p'" "stop p'" "length (workers p') = length (workers ?p1)"
         "\<forall>k < length (workers ?p1). workers p' ! k = (workers ?p1 ! k \<and> k \<notin> set rest)"
         "if \<exists>k \<in> set rest. workers ?p1 ! k
              then tasks p' = [] \<and> finished p' = finished ?p1 @ tasks ?p1
              else tasks p' = tasks ?p1 \<and> finished p' = finished ?p1"
      by blast
    have w: "join_workers (i # rest) p = Some p'"
      using True worker_thread_stopped [OF Cons.prems] j(1) by simp
    have l: "length (workers p') = length (workers p)" using j(3) by simp
    have a: "\<forall>k < length (workers p). workers p' ! k = (workers p ! k \<and> k \<notin> set (i # rest))"
    proof (intro allI impI)
      fix k assume k: "k < length (workers p)"
      with j(4) have "workers p' ! k = ((workers p)[i := False] ! k \<and> k \<notin> set rest)" by simp
      with k show "workers p' ! k = (workers p ! k \<and> k \<notin> set (i # rest))"
        by (cases "k = i") auto
    qed
    from j(5) have t: "tasks p' = [] \<and> finished p' = finished p @ tasks p"
      by (simp split: if_splits)
    from w j(2) l a t True show ?thesis by auto
  qed
qed

lemma join_workers_none_joinable:
  "\<forall>i \<in> set idxs. \<not> workers p ! i \<Longrightarrow> join_workers idxs p = Some p"
  by (induction idxs) simp_all

lemma shutdown_result:
  "\<exists>p'. shutdown p = Some p' \<and> stop p'
        \<and> length (workers p') = length (workers p)
        \<and> list_all Not (workers p')
        \<and> (if True \<in> set (workers p)
            then tasks p' = [] \<and> finished p' = finished p @ tasks p
            else tasks p' = tasks p \<and> finished p' = finished p)"
proof -
  let ?p0 = "p\<lparr>stop := True\<rparr>"
  have "stop ?p0" by simp
  from join_workers_stopped [OF this, of "[0..<length (workers p)]"] obtain p' where
    j: "join_workers [0..<length (workers p)] ?p0 = Some p'" "stop p'"
       "length (workers p') = length (workers p)"
       "\<forall>i < length (workers p). workers p' ! i = (workers p ! i \<and> i \<notin> set [0..<length (workers p)])"
       "if \<exists>i \<in> set [0..<length (workers p)]. workers ?p0 ! i
              then tasks p' = [] \<and> finished p' = finished ?p0 @ tasks ?p0
              else tasks p' = tasks ?p0 \<and> finished p' = finished ?p0"
    by auto
  from j(3,4) have n: "list_all Not (workers p')"
    by (simp add: list_all_length)
  have e: "(\<exists>i \<in> set [0..<length (workers p)]. workers ?p0 ! i) = (True \<in> set (workers p))"
    by (auto simp add: in_set_conv_nth)
  from j(5) have "if True \<in> set (workers p)
            then tasks p' = [] \<and> finished p' = finished p @ tasks p
            else tasks p' = tasks p \<and> finished p' = finished p"
    unfolding e by simp
  with j(1,2,3) n show ?thesis by (auto simp add: shutdown_def)
qed

lemma shutdown_when_joined:
  assumes "stop p" and "list_all Not (workers p)"
  shows "shutdown p = Some p"
proof -
  from assms(1) have e: "p\<lparr>stop := True\<rparr> = p" by simp
  from assms(2) have "\<forall>i \<in> set [0..<length (workers p)]. \<not> workers p ! i"
    by (simp add: list_all_length)
  from join_workers_none_joinable [OF this] e show ?thesis by (simp add: shutdown_def)
qed

text \<open>
  Claim C9, as amended. \<^verbatim>\<open>submit_batch\<close> and \<^verbatim>\<open>submit_encode_batch\<close> do not read
  the stop flag: in every state of the pool the task is appended to the queue.
  \<^verbatim>\<open>shutdown\<close> returns with the stop flag set and every worker joined; when the pool
  has a joinable worker, the tasks queued before the call have all been run, in queue
  order, and the queue is empty. A second \<^verbatim>\<open>shutdown\<close> changes nothing, and a task
  submitted after \<^verbatim>\<open>shutdown\<close> stays in the queue: a later \<^verbatim>\<open>shutdown\<close> (the
  destructor's) returns with the task still queued and not run.
\<close>

theorem pool_shutdown_behaviour:
  "tasks (submit_batch p frames pc) = tasks p @ [PreprocessBatch frames pc]
   \<and> tasks (submit_encode_batch p frames jc) = tasks p @ [EncodeBatch frames jc]
   \<and> (\<exists>p'. shutdown p = Some p' \<and> stop p' \<and> list_all Not (workers p')
          \<and> (True \<in> set (workers p) \<longrightarrow> tasks p' = [] \<and> finished p' = finished p @ tasks p)
          \<and> shutdown p' = Some p'
          \<and> shutdown (submit_batch p' frames pc) = Some (submit_batch p' frames pc)
          \<and> shutdown (submit_encode_batch p' frames jc) = Some (submit_encode_batch p' frames jc))"
proof -
  from shutdown_result [of p] obtain p' where
    s: "shutdown p = Some p'" "stop p'" "list_all Not (workers p')"
       "if True \<in> set (workers p)
            then tasks p' = [] \<and> finished p' = finished p @ tasks p
            else tasks p' = tasks p \<and> finished p' = finished p"
    by blast
  have i: "shutdown p' = Some p'" using s(2,3) by (rule shutdown_when_joined)
  have b: "shutdown (submit_batch p' frames pc) = Some (submit_batch p' frames pc)"
    using s(2,3) by (intro shutdown_when_joined) (simp_all add: submit_batch_def)
  have c: "shutdown (submit_encode_batch p' frames jc) = Some (submit_encode_batch p' frames jc)"
    using s(2,3) by (intro shutdown_when_joined) (simp_all add: submit_encode_batch_def)
  from s(4) have d: "True \<in> set (workers p) \<longrightarrow> tasks p' = [] \<and> finished p' = finished p @ tasks p"
    by simp
  have t: "tasks (submit_batch p frames pc) = tasks p @ [PreprocessBatch frames pc]"
      "tasks (submit_encode_batch p frames jc) = tasks p @ [EncodeBatch frames jc]"
    by (simp_all add: submit_batch_def submit_encode_batch_def)
  from t s(1,2,3) d i b c show ?thesis by blast
qed

theorem pool_shutdown_behaviour_witness:
  "True \<in> set (workers (submit_encode_batch
        (submit_batch (FrameProcessorPool_ctor 1) [sample_frame 2 2 3] sample_preprocess_config)
        [sample_frame 2 2 1] sample_jpeg_config))
   \<and> map_option finished (shutdown (submit_encode_batch
        (submit_batch (FrameProcessorPool_ctor 1) [sample_frame 2 2 3] sample_preprocess_config)
        [sample_frame 2 2 1] sample_jpeg_config))
     = Some [PreprocessBatch [sample_frame 2 2 3] sample_preprocess_config,
             EncodeBatch [sample_frame 2 2 1] sample_jpeg_config]
   \<and> map_option tasks (shutdown (submit_encode_batch
        (submit_batch (FrameProcessorPool_ctor 1) [sample_frame 2 2 3] sample_preprocess_config)
        [sample_frame 2 2 1] sample_jpeg_config))
     = Some []"
proof -
  let ?p = "submit_encode_batch
        (submit_batch (FrameProcessorPool_ctor 1) [sample_frame 2 2 3] sample_preprocess_config)
        [sample_frame 2 2 1] sample_jpeg_config"
  have w: "True \<in> set (workers ?p)"
    and f: "finished ?p = []"
    and t: "tasks ?p = [PreprocessBatch [sample_frame 2 2 3] sample_preprocess_config,
                        EncodeBatch [sample_frame 2 2 1] sample_jpeg_config]"
    by (simp_all add: submit_batch_def submit_encode_batch_def FrameProcessorPool_ctor_def)
  from pool_shutdown_behaviour [of ?p] w obtain p' where
    "shutdown ?p = Some p'" "tasks p' = []" "finished p' = finished ?p @ tasks ?p"
    by blast
  with w f t show ?thesis by simp
qed

text \<open>
  Claim C9 as stated (after shutdown a submitted task is not enqueued) fails: on a pool
  of one worker that has been shut down, both submit operations enqueue their task.
\<close>

theorem submit_after_shutdown_is_enqueued:
  "shutdown (FrameProcessorPool_ctor 1)
     = Some \<lparr>workers = [False], tasks = [], stop = True, finished = []\<rparr>
   \<and> tasks (submit_batch \<lparr>workers = [False], tasks = [], stop = True, finished = []\<rparr>
              [sample_frame 2 2 3] sample_preprocess_config)
     = [PreprocessBatch [sample_frame 2 2 3] sample_preprocess_config]
   \<and> tasks (submit_encode_batch \<lparr>workers = [False], tasks = [], stop = True, finished = []\<rparr>
              [sample_frame 2 2 3] sample_jpeg_config)
     = [EncodeBatch [sample_frame 2 2 3] sample_jpeg_config]"
  by (simp add: shutdown_def FrameProcessorPool_ctor_def worker_thread_stopped
      submit_batch_def submit_encode_batch_def)

end
